theory Spec2Isabelle
  imports Complex_Main
begin

section \<open>The chat client of \<open>src/App.tsx\<close>\<close>

text \<open>
  The component \<open>App\<close> keeps its data in React state variables. Every render of the
  component creates its functions anew, and each of them reads the state variables of
  the render that created it, while the setters act on the latest state. The functions
  below therefore take two states where the source reads a state variable: \<open>r\<close>, the
  render the function belongs to, and \<open>st\<close>, the state its setters update. A handler
  that the user triggers on the committed page runs with \<open>r = st\<close>.

  Strings are lists of characters, one element for one code unit of the source's
  strings. The clock (\<open>Date.now()\<close>, \<open>new Date()\<close>) is an input: a function that reads
  it takes the reading, in milliseconds, as the argument \<open>now\<close>, and the readings within
  one synchronous call are taken to be equal.
\<close>

subsection \<open>Values of the language\<close>

text \<open>A \<open>string | null\<close> in a condition: \<open>null\<close> and the empty string are falsy.\<close>

definition truthy :: "string option \<Rightarrow> bool" where
  "truthy v = (case v of None \<Rightarrow> False | Some s \<Rightarrow> s \<noteq> [])"

text \<open>\<open>Number.prototype.toString\<close> on a natural number: its decimal digits.\<close>

definition digit_char :: "nat \<Rightarrow> char" where
  "digit_char d = ''0123456789'' ! d"

fun toString :: "nat \<Rightarrow> string" where
  "toString n =
     (if n < 10 then [digit_char n] else toString (n div 10) @ [digit_char (n mod 10)])"

text \<open>The number a string of decimal digits denotes, as \<open>Number(s)\<close> reads it.\<close>

definition digit_val :: "char \<Rightarrow> nat" where
  "digit_val c = of_char c - 48"

definition decimal_value :: "string \<Rightarrow> nat" where
  "decimal_value s = foldl (\<lambda>a c. 10 * a + digit_val c) 0 s"

text \<open>
  \<open>String.prototype.trim\<close>: white space is removed at both ends (the white space
  characters that fit a \<open>char\<close>: tab, line feed, vertical tab, form feed, carriage
  return, space and no-break space).
\<close>

definition is_space :: "char \<Rightarrow> bool" where
  "is_space c = (of_char c \<in> {9, 10, 11, 12, 13, 32, 160 :: nat})"

definition trim :: "string \<Rightarrow> string" where
  "trim s = rev (dropWhile is_space (rev (dropWhile is_space s)))"

text \<open>\<open>s.split("\n")\<close>: the pieces between line feeds; never the empty list.\<close>

fun split_lines :: "string \<Rightarrow> string list" where
  "split_lines [] = [[]]"
| "split_lines (c # cs) =
     (if c = CHR 0x0A then [] # split_lines cs
      else (case split_lines cs of l # ls \<Rightarrow> (c # l) # ls | [] \<Rightarrow> [[c]]))"

subsection \<open>The data model\<close>

datatype sender = User | Llm

record message =
  msg_text :: string
  sender :: sender
  imageUrl :: "string option"

record conversation =
  conv_id :: string
  title :: string
  conv_messages :: "message list"
  createdAt :: nat
  updatedAt :: nat

text \<open>The state variables of \<open>App\<close> that the functions modelled here read or set.\<close>

record app_state =
  messages :: "message list"
  inputText :: string
  selectedImage :: "string option"
  imagePreviewUrl :: "string option"
  isStreaming :: bool
  conversations :: "conversation list"
  currentConversationId :: "string option"
  isSidebarOpen :: bool

text \<open>The state of the first render: the initial values given to \<open>useState\<close>.\<close>

definition initial_state :: app_state where
  "initial_state =
     \<lparr>messages = [], inputText = [], selectedImage = None, imagePreviewUrl = None,
      isStreaming = False, conversations = [], currentConversationId = None,
      isSidebarOpen = False\<rparr>"

subsection \<open>Conversations\<close>

definition generateConversationTitle :: "string \<Rightarrow> string" where
  "generateConversationTitle firstMessage =
     (if length firstMessage > 30 then take 30 firstMessage @ ''...'' else firstMessage)"

text \<open>\<open>createNewConversation\<close> returns the new id together with the state it leaves.\<close>

definition createNewConversation :: "nat \<Rightarrow> app_state \<Rightarrow> string \<times> app_state" where
  "createNewConversation now st =
     (let newId = toString now;
          newConversation = \<lparr>conv_id = newId, title = ''New Conversation'',
            conv_messages = [], createdAt = now, updatedAt = now\<rparr>
      in (newId,
          st\<lparr>conversations := newConversation # conversations st,
             currentConversationId := Some newId,
             messages := []\<rparr>))"

definition selectConversation :: "app_state \<Rightarrow> string \<Rightarrow> app_state \<Rightarrow> app_state" where
  "selectConversation r conversationId st =
     (case find (\<lambda>c. conv_id c = conversationId) (conversations r) of
        Some conversation \<Rightarrow>
          st\<lparr>currentConversationId := Some conversationId,
             messages := conv_messages conversation,
             isSidebarOpen := False\<rparr>
      | None \<Rightarrow> st)"

text \<open>
  The conversation that \<open>updateCurrentConversation\<close> rewrites: the title is derived
  from the first message while it still is the placeholder, \<open>newMessages[0]\<close> being
  read only when the list is not empty.
\<close>

definition update_conv :: "nat \<Rightarrow> message list \<Rightarrow> conversation \<Rightarrow> conversation" where
  "update_conv now newMessages conv =
     conv\<lparr>conv_messages := newMessages,
          title := (case newMessages of
                      m # _ \<Rightarrow> if title conv = ''New Conversation''
                               then generateConversationTitle (msg_text m) else title conv
                    | [] \<Rightarrow> title conv),
          updatedAt := now\<rparr>"

definition updateCurrentConversation ::
  "app_state \<Rightarrow> nat \<Rightarrow> message list \<Rightarrow> app_state \<Rightarrow> app_state" where
  "updateCurrentConversation r now newMessages st =
     (if truthy (currentConversationId r)
      then st\<lparr>conversations :=
                map (\<lambda>conv. if Some (conv_id conv) = currentConversationId r
                            then update_conv now newMessages conv else conv)
                    (conversations st)\<rparr>
      else st)"

definition deleteConversation :: "app_state \<Rightarrow> string \<Rightarrow> app_state \<Rightarrow> app_state" where
  "deleteConversation r conversationId st =
     (let st1 = st\<lparr>conversations :=
                     filter (\<lambda>c. conv_id c \<noteq> conversationId) (conversations st)\<rparr>
      in if currentConversationId r = Some conversationId
         then st1\<lparr>currentConversationId := None, messages := []\<rparr>
         else st1)"

subsection \<open>Persistence\<close>

text \<open>
  The two keys of \<open>localStorage\<close> that hold the session. The text under
  \<open>conversations\<close> is represented by what reading it back gives: \<open>Serialized cs\<close> is
  the text \<open>JSON.stringify\<close> writes for \<open>cs\<close>, which \<open>JSON.parse\<close> and the revival of
  the two dates turn into \<open>cs\<close> again; \<open>Unparseable s\<close> is a text \<open>s\<close> on which the
  reading code throws.
\<close>

datatype stored = Serialized "conversation list" | Unparseable string

record local_storage =
  ls_conversations :: "stored option"
  ls_currentConversationId :: "string option"

text \<open>\<open>if (savedConversations)\<close>: the key is present and its text is not empty.\<close>

definition stored_truthy :: "stored option \<Rightarrow> bool" where
  "stored_truthy v =
     (case v of None \<Rightarrow> False | Some (Unparseable s) \<Rightarrow> s \<noteq> [] | Some (Serialized cs) \<Rightarrow> True)"

text \<open>
  The effect that loads the session on mount. A text that cannot be read is logged and
  skipped by each of the two \<open>try\<close> blocks; the saved id is set before the second one.
\<close>

definition load_effect :: "local_storage \<Rightarrow> app_state \<Rightarrow> app_state" where
  "load_effect ls st =
     (let savedConversations = ls_conversations ls;
          savedCurrentId = ls_currentConversationId ls;
          st1 = (if stored_truthy savedConversations
                 then (case savedConversations of
                         Some (Serialized conversationsWithDates) \<Rightarrow>
                           st\<lparr>conversations := conversationsWithDates\<rparr>
                       | _ \<Rightarrow> st)
                 else st)
      in if truthy savedCurrentId
         then (let st2 = st1\<lparr>currentConversationId := savedCurrentId\<rparr>
               in if stored_truthy savedConversations
                  then (case savedConversations of
                          Some (Serialized parsedConversations) \<Rightarrow>
                            (case find (\<lambda>c. Some (conv_id c) = savedCurrentId)
                                    parsedConversations of
                               Some currentConv \<Rightarrow> st2\<lparr>messages := conv_messages currentConv\<rparr>
                             | None \<Rightarrow> st2)
                        | _ \<Rightarrow> st2)
                  else st2)
         else st1)"

definition save_conversations_effect :: "app_state \<Rightarrow> local_storage \<Rightarrow> local_storage" where
  "save_conversations_effect st ls =
     (if length (conversations st) > 0
      then ls\<lparr>ls_conversations := Some (Serialized (conversations st))\<rparr>
      else ls)"

definition save_current_id_effect :: "app_state \<Rightarrow> local_storage \<Rightarrow> local_storage" where
  "save_current_id_effect st ls =
     (if truthy (currentConversationId st)
      then ls\<lparr>ls_currentConversationId := currentConversationId st\<rparr>
      else ls\<lparr>ls_currentConversationId := None\<rparr>)"

text \<open>
  After a render is committed React runs the effects whose dependency changed, in the
  order of the source. An effect whose dependency did not change would write what the
  store already holds, so \<open>commit\<close> runs both.
\<close>

definition commit :: "app_state \<Rightarrow> local_storage \<Rightarrow> local_storage" where
  "commit st ls = save_current_id_effect st (save_conversations_effect st ls)"

text \<open>
  Mounting the component: the effects of the first render run on the initial state, the
  loading effect first; the render that follows shows the loaded state and runs the
  saving effects on it.
\<close>

definition mount :: "local_storage \<Rightarrow> app_state \<times> local_storage" where
  "mount ls =
     (let st = load_effect ls initial_state;
          ls1 = commit initial_state ls
      in (st, commit st ls1))"

text \<open>The invariant of the session state: a set active id names a conversation.\<close>

definition active_exists :: "app_state \<Rightarrow> bool" where
  "active_exists st =
     (case currentConversationId st of
        None \<Rightarrow> True
      | Some i \<Rightarrow> i \<in> set (map conv_id (conversations st)))"

subsection \<open>Values read from JSON\<close>

text \<open>
  What \<open>JSON.parse\<close> returns. An object is the list of its members, each key once.
  \<open>None\<close> of type \<open>json option\<close> stands for \<open>undefined\<close>.
\<close>

datatype json =
  JNull | JBool bool | JNum int | JStr string | JArr "json list" | JObj "(string \<times> json) list"

text \<open>
  Reading a property of a value that is not \<open>null\<close>, for the property names the
  source reads (\<open>choices\<close>, \<open>delta\<close>, \<open>content\<close>, \<open>error\<close>): only an object may
  have one.
\<close>

fun get_prop :: "json \<Rightarrow> string \<Rightarrow> json option" where
  "get_prop (JObj members) p = map_of members p"
| "get_prop _ p = None"

text \<open>The element \<open>[0]\<close>: of an array, of an object with the key \<open>0\<close>, of a string.\<close>

fun get_index0 :: "json \<Rightarrow> json option" where
  "get_index0 (JArr (x # _)) = Some x"
| "get_index0 (JObj members) = map_of members ''0''"
| "get_index0 (JStr (c # _)) = Some (JStr [c])"
| "get_index0 _ = None"

text \<open>Optional chaining \<open>v?.\<close>: \<open>undefined\<close> when \<open>v\<close> is \<open>undefined\<close> or \<open>null\<close>.\<close>

definition opt_chain :: "json option \<Rightarrow> (json \<Rightarrow> json option) \<Rightarrow> json option" where
  "opt_chain v f = (case v of None \<Rightarrow> None | Some JNull \<Rightarrow> None | Some x \<Rightarrow> f x)"

fun js_truthy :: "json \<Rightarrow> bool" where
  "js_truthy JNull = False"
| "js_truthy (JBool b) = b"
| "js_truthy (JNum n) = (n \<noteq> 0)"
| "js_truthy (JStr s) = (s \<noteq> [])"
| "js_truthy (JArr _) = True"
| "js_truthy (JObj _) = True"

fun join_comma :: "string list \<Rightarrow> string" where
  "join_comma [] = []"
| "join_comma [s] = s"
| "join_comma (s # t # ss) = s @ '','' @ join_comma (t # ss)"

text \<open>The string a value becomes under \<open>+=\<close> on a string and in a template literal.\<close>

fun js_string :: "json \<Rightarrow> string" where
  "js_string JNull = ''null''"
| "js_string (JBool b) = (if b then ''true'' else ''false'')"
| "js_string (JNum n) = (if n < 0 then ''-'' @ toString (nat (- n)) else toString (nat n))"
| "js_string (JStr s) = s"
| "js_string (JArr xs) = join_comma (map (\<lambda>x. if x = JNull then [] else js_string x) xs)"
| "js_string (JObj _) = ''[object Object]''"

text \<open>
  What the component takes from outside: the two configuration constants,
  \<open>JSON.parse\<close> (\<open>None\<close> when it throws a \<open>SyntaxError\<close>) and the message of the
  \<open>TypeError\<close> that reading a property of \<open>null\<close> throws.
\<close>

record environment =
  API_BASE_URL :: string
  MODEL_NAME :: string
  JSON_parse :: "string \<Rightarrow> json option"
  null_read_message :: string

subsection \<open>The stream of the response\<close>

text \<open>
  One frame, lines 301 to 303: \<open>parsed.choices?.[0]?.delta?.content\<close>. \<open>Malformed\<close>
  is a payload on which \<open>JSON.parse\<close> or the read of \<open>choices\<close> throws, which the
  \<open>catch\<close> logs; \<open>NoDelta\<close> a payload whose delta is falsy; \<open>Delta s\<close> one that adds
  \<open>s\<close> to the accumulated text.
\<close>

datatype frame = Malformed | NoDelta | Delta string

definition read_frame :: "environment \<Rightarrow> string \<Rightarrow> frame" where
  "read_frame env data =
     (case JSON_parse env data of
        None \<Rightarrow> Malformed
      | Some JNull \<Rightarrow> Malformed
      | Some parsed \<Rightarrow>
          (case opt_chain (opt_chain (opt_chain (get_prop parsed ''choices'') get_index0)
                             (\<lambda>x. get_prop x ''delta''))
                  (\<lambda>x. get_prop x ''content'') of
             None \<Rightarrow> NoDelta
           | Some delta \<Rightarrow> if js_truthy delta then Delta (js_string delta) else NoDelta))"

text \<open>
  \<open>processChunk\<close>: the updater given to \<open>setMessages\<close> replaces the text of the last
  message and passes the new list to \<open>updateCurrentConversation\<close>; on an empty list it
  changes nothing.
\<close>

definition processChunk :: "app_state \<Rightarrow> nat \<Rightarrow> string \<Rightarrow> app_state \<Rightarrow> app_state" where
  "processChunk r now txt st =
     (let prevMessages = messages st
      in if length prevMessages > 0
         then (let updatedMessages =
                     prevMessages[length prevMessages - 1 :=
                       (prevMessages ! (length prevMessages - 1))\<lparr>msg_text := txt\<rparr>]
               in (updateCurrentConversation r now updatedMessages st)
                    \<lparr>messages := updatedMessages\<rparr>)
         else st)"

text \<open>
  The \<open>for\<close> loop over the lines of one chunk, on the accumulated text and the state.
  The sentinel leaves the loop (\<open>break\<close>): the lines after it in the chunk are not read.
\<close>

fun process_lines ::
  "environment \<Rightarrow> app_state \<Rightarrow> nat \<Rightarrow> string list \<Rightarrow> string \<times> app_state \<Rightarrow> string \<times> app_state"
where
  "process_lines env r now [] (accumulatedText, st) = (accumulatedText, st)"
| "process_lines env r now (line # lines) (accumulatedText, st) =
     (if take 6 line = ''data: ''
      then (let data = drop 6 line
            in if data = ''[DONE]''
               then (accumulatedText, st\<lparr>isStreaming := False\<rparr>)
               else (case read_frame env data of
                       Delta delta \<Rightarrow>
                         process_lines env r now lines
                           (accumulatedText @ delta,
                            processChunk r now (accumulatedText @ delta) st)
                     | _ \<Rightarrow> process_lines env r now lines (accumulatedText, st)))
      else process_lines env r now lines (accumulatedText, st))"

text \<open>
  The \<open>while\<close> loop over the reads: each chunk comes with the clock reading at which it
  is handled, as decoded text, and is split into lines on its own. The loop ends when
  the reader reports the end of the body.
\<close>

fun read_loop ::
  "environment \<Rightarrow> app_state \<Rightarrow> (nat \<times> string) list \<Rightarrow> string \<times> app_state \<Rightarrow> string \<times> app_state"
where
  "read_loop env r [] s = s"
| "read_loop env r ((now, chunk) # rest) s =
     read_loop env r rest (process_lines env r now (split_lines chunk) s)"

subsection \<open>The request and the response\<close>

datatype role = RoleUser | RoleAssistant

datatype part = TextPart string | ImageUrlPart string

datatype content = Plain string | Parts "part list"

record api_message =
  role :: role
  content :: content

record request =
  url :: string
  model :: string
  api_messages :: "api_message list"
  temperature :: rat
  max_tokens :: nat
  stream :: bool

text \<open>
  The body of a response as the reader delivers it: the chunks, and the message of the
  error with which a read fails after them, if one does.
\<close>

record body_stream =
  chunks :: "(nat \<times> string) list"
  failure :: "string option"

text \<open>
  A response: \<open>json_body\<close> is what \<open>response.json()\<close> resolves to (\<open>None\<close> when it
  rejects), \<open>body\<close> is \<open>None\<close> when the response has no body to read.
\<close>

record response =
  ok :: bool
  status :: nat
  json_body :: "json option"
  body :: "body_stream option"

text \<open>\<open>fetch\<close> rejects with an error message or resolves to a response.\<close>

datatype fetch_result = Rejected string | Resolved response

subsection \<open>Submitting a message\<close>

text \<open>Lines 183 to 226: the history, then the message that is being sent.\<close>

definition messagesForApi :: "app_state \<Rightarrow> api_message list" where
  "messagesForApi r =
     (let currentInputText = inputText r;
          currentSelectedImage = selectedImage r;
          history = map (\<lambda>msg. \<lparr>role = (if sender msg = User then RoleUser else RoleAssistant),
                                 content = Plain (msg_text msg)\<rparr>) (messages r);
          currentMessageContent =
            (case currentSelectedImage of
               None \<Rightarrow> Plain (trim currentInputText)
             | Some dataUrl \<Rightarrow>
                 if dataUrl \<noteq> [] \<and> trim currentInputText \<noteq> []
                 then Parts [TextPart (trim currentInputText), ImageUrlPart dataUrl]
                 else if dataUrl \<noteq> [] then Parts [ImageUrlPart dataUrl]
                 else Plain (trim currentInputText))
      in history @ [\<lparr>role = RoleUser, content = currentMessageContent\<rparr>])"

definition build_request :: "environment \<Rightarrow> app_state \<Rightarrow> request" where
  "build_request env r =
     \<lparr>url = API_BASE_URL env @ ''/chat/completions'',
      model = MODEL_NAME env,
      api_messages = messagesForApi r,
      temperature = 7 / 10,
      max_tokens = 2000,
      stream = True\<rparr>"

text \<open>
  The \<open>catch\<close> block, lines 316 to 338, on the message of the error it caught: the
  last message is replaced when its text is empty, otherwise the error is appended.
\<close>

definition catch_error :: "environment \<Rightarrow> string \<Rightarrow> app_state \<Rightarrow> app_state" where
  "catch_error env error_message st =
     (let st1 = st\<lparr>isStreaming := False\<rparr>;
          errorMessage =
            \<lparr>msg_text = ''Error: '' @ error_message
                 @ ''. Please ensure LM Studio is running with '' @ MODEL_NAME env
                 @ '' model loaded at '' @ API_BASE_URL env @ ''/chat/completions.'',
             sender = Llm, imageUrl = None\<rparr>;
          prevMessages = messages st1
      in st1\<lparr>messages :=
           (if length prevMessages > 0
               \<and> msg_text (prevMessages ! (length prevMessages - 1)) = []
            then prevMessages[length prevMessages - 1 := errorMessage]
            else prevMessages @ [errorMessage])\<rparr>)"

text \<open>
  Lines 255 to 262, the message of the error thrown for a response that is not ok.
  \<open>Inl\<close> is the \<open>TypeError\<close> of reading \<open>error\<close> from a body that is \<open>null\<close>.
\<close>

definition http_error_message :: "environment \<Rightarrow> response \<Rightarrow> string" where
  "http_error_message env resp =
     (let errorData = (case json_body resp of
                         None \<Rightarrow> JObj [(''error'', JStr ''No additional error info'')]
                       | Some v \<Rightarrow> v)
      in if errorData = JNull then null_read_message env
         else ''HTTP error! Status: '' @ toString (status resp) @ ''. ''
              @ (case get_prop errorData ''error'' of
                   None \<Rightarrow> []
                 | Some e \<Rightarrow> if js_truthy e then js_string e else []))"

text \<open>
  The synchronous part of \<open>handleSubmit\<close>, lines 157 to 239, for an input that passes
  the guard of line 155, followed by the callback given to \<open>setTimeout\<close>, which runs
  before the response arrives. Both call the \<open>updateCurrentConversation\<close> of the
  render \<open>r\<close> that \<open>handleSubmit\<close> belongs to.
\<close>

definition submit_phase :: "nat \<Rightarrow> app_state \<Rightarrow> app_state \<Rightarrow> app_state" where
  "submit_phase now r st =
     (let userMessage =
            \<lparr>msg_text = inputText r, sender = User,
             imageUrl = (if truthy (imagePreviewUrl r) then imagePreviewUrl r else None)\<rparr>;
          newMessages = messages r @ [userMessage];
          st1 = st\<lparr>messages := newMessages\<rparr>;
          st2 = (if \<not> truthy (currentConversationId r)
                 then snd (createNewConversation now st1)
                 else updateCurrentConversation r now newMessages st1);
          st3 = st2\<lparr>inputText := [], selectedImage := None, imagePreviewUrl := None\<rparr>;
          st4 = st3\<lparr>isStreaming := True\<rparr>;
          streamingPlaceholder = \<lparr>msg_text = [], sender = Llm, imageUrl = None\<rparr>;
          st5 = st4\<lparr>messages := messages st4 @ [streamingPlaceholder]\<rparr>
      in if \<not> truthy (currentConversationId r)
         then updateCurrentConversation r now newMessages st5
         else st5)"

text \<open>The rest of \<open>handleSubmit\<close>, from the answer of \<open>fetch\<close> on.\<close>

definition response_phase ::
  "environment \<Rightarrow> app_state \<Rightarrow> fetch_result \<Rightarrow> app_state \<Rightarrow> app_state" where
  "response_phase env r res st =
     (case res of
        Rejected error_message \<Rightarrow> catch_error env error_message st
      | Resolved resp \<Rightarrow>
          if \<not> ok resp then catch_error env (http_error_message env resp) st
          else (case body resp of
                  None \<Rightarrow> st\<lparr>isStreaming := False\<rparr>
                | Some reader \<Rightarrow>
                    (let (accumulatedText, st1) = read_loop env r (chunks reader) ([], st)
                     in case failure reader of
                          None \<Rightarrow> st1\<lparr>isStreaming := False\<rparr>
                        | Some error_message \<Rightarrow> catch_error env error_message st1)))"

definition handleSubmit ::
  "environment \<Rightarrow> (request \<Rightarrow> fetch_result) \<Rightarrow> nat \<Rightarrow> app_state \<Rightarrow> app_state \<Rightarrow> app_state"
where
  "handleSubmit env fetch now r st =
     (if trim (inputText r) = [] \<and> \<not> truthy (selectedImage r) then st
      else response_phase env r (fetch (build_request env r)) (submit_phase now r st))"

subsection \<open>The deltas of a stream\<close>

text \<open>
  The deltas that the lines of one chunk add to the accumulated text, in the order of
  the lines and up to the sentinel; the deltas of a sequence of chunks; a chunk made of
  whole lines, each ended by a line feed; and a message list with the text of its last
  message replaced. The properties of the read loop are stated with them.
\<close>

fun line_deltas :: "environment \<Rightarrow> string list \<Rightarrow> string list" where
  "line_deltas env [] = []"
| "line_deltas env (line # lines) =
     (if take 6 line = ''data: ''
      then (if drop 6 line = ''[DONE]'' then []
            else (case read_frame env (drop 6 line) of
                    Delta delta \<Rightarrow> delta # line_deltas env lines
                  | _ \<Rightarrow> line_deltas env lines))
      else line_deltas env lines)"

definition stream_deltas :: "environment \<Rightarrow> (nat \<times> string) list \<Rightarrow> string list" where
  "stream_deltas env cs = concat (map (\<lambda>c. line_deltas env (split_lines (snd c))) cs)"

definition join_lines :: "string list \<Rightarrow> string" where
  "join_lines ls = concat (map (\<lambda>l. l @ [CHR 0x0A]) ls)"

definition replace_last :: "string \<Rightarrow> message list \<Rightarrow> message list" where
  "replace_last txt ms = (if ms = [] then [] else butlast ms @ [(last ms)\<lparr>msg_text := txt\<rparr>])"

subsection \<open>Predicates of the proofs\<close>

text \<open>
  The title of every conversation that \<open>updateCurrentConversation\<close> of the render
  \<open>r\<close> rewrites is settled with respect to the first message \<open>m\<close>: deriving it
  again gives the title it has.
\<close>

definition title_settled :: "app_state \<Rightarrow> message \<Rightarrow> app_state \<Rightarrow> bool" where
  "title_settled r m s =
     (\<forall>c \<in> set (conversations s).
        truthy (currentConversationId r) \<and> Some (conv_id c) = currentConversationId r \<longrightarrow>
        title c \<noteq> ''New Conversation''
        \<or> generateConversationTitle (msg_text m) = ''New Conversation'')"

subsection \<open>The examples\<close>

text \<open>Two conversations created one after the other in a fresh session.\<close>

definition two_conversations :: app_state where
  "two_conversations = snd (createNewConversation 2 (snd (createNewConversation 1 initial_state)))"

text \<open>
  The exchange of the examples: the payload of a frame with the delta \<open>d\<close> and the
  value \<open>JSON.parse\<close> reads from it, a frame of the event stream, \<open>JSON.parse\<close> on the
  two payloads of the exchange (it throws on the other texts the examples give it, which
  are pieces of these payloads), the configuration with the defaults of the source, and
  the chunks in which the answer \<open>Hi there\<close> arrives.
\<close>

definition quoted :: "string \<Rightarrow> string" where
  "quoted s = CHR 0x22 # s @ [CHR 0x22]"

definition delta_payload :: "string \<Rightarrow> string" where
  "delta_payload d =
     ''{'' @ quoted ''choices'' @ '':[{'' @ quoted ''delta'' @ '':{'' @ quoted ''content''
       @ '':'' @ quoted d @ ''}}]}''"

definition delta_json :: "string \<Rightarrow> json" where
  "delta_json d = JObj [(''choices'', JArr [JObj [(''delta'', JObj [(''content'', JStr d)])]])]"

definition sse_frame :: "string \<Rightarrow> string" where
  "sse_frame payload = ''data: '' @ payload @ [CHR 0x0A, CHR 0x0A]"

definition example_parse :: "string \<Rightarrow> json option" where
  "example_parse s =
     (if s = delta_payload ''Hi'' then Some (delta_json ''Hi'')
      else if s = delta_payload '' there'' then Some (delta_json '' there'')
      else None)"

definition example_env :: environment where
  "example_env =
     \<lparr>API_BASE_URL = ''http://192.168.1.174:1234/v1'', MODEL_NAME = ''gemma-3-12b'',
      JSON_parse = example_parse, null_read_message =
        ''Cannot read properties of null (reading '' @ [CHR 0x27] @ ''error'' @ [CHR 0x27] @ '')''\<rparr>"

definition hello_chunks :: "(nat \<times> string) list" where
  "hello_chunks =
     [(1700000000100, sse_frame (delta_payload ''Hi'')),
      (1700000000200, sse_frame (delta_payload '' there'')),
      (1700000000300, sse_frame ''[DONE]'')]"

text \<open>
  A state in the middle of an exchange, a fresh session in which \<open>Hello\<close> has been
  typed, a server that answers with the chunks above, and one that answers with the
  status 500.
\<close>

definition placeholder_state :: app_state where
  "placeholder_state =
     initial_state\<lparr>messages := [\<lparr>msg_text = ''Hello'', sender = User, imageUrl = None\<rparr>,
                                 \<lparr>msg_text = [], sender = Llm, imageUrl = None\<rparr>],
                    isStreaming := True\<rparr>"

definition hello_state :: app_state where
  "hello_state = initial_state\<lparr>inputText := ''Hello''\<rparr>"

definition hello_fetch :: "request \<Rightarrow> fetch_result" where
  "hello_fetch req =
     Resolved \<lparr>ok = True, status = 200, json_body = None,
               body = Some \<lparr>chunks = hello_chunks, failure = None\<rparr>\<rparr>"




section \<open>Properties\<close>

subsection \<open>Numbers as text\<close>

declare toString.simps [simp del]

lemma digit_val_digit_char: "d < 10 \<Longrightarrow> digit_val (digit_char d) = d"
proof -
  assume "d < 10"
  then have "d \<in> {0,1,2,3,4,5,6,7,8,9}" by auto
  then show ?thesis
    by (auto simp: digit_val_def digit_char_def)
qed

lemma toString_nonempty: "toString n \<noteq> []"
  by (subst toString.simps) simp

lemma decimal_value_snoc: "decimal_value (s @ [c]) = 10 * decimal_value s + digit_val c"
  by (simp add: decimal_value_def)

lemma decimal_value_toString: "decimal_value (toString n) = n"
proof (induction n rule: toString.induct)
  case (1 n)
  show ?case
  proof (cases "n < 10")
    case True
    then show ?thesis
      by (subst toString.simps) (simp add: decimal_value_def digit_val_digit_char)
  next
    case False
    with 1 have "decimal_value (toString (n div 10)) = n div 10" by simp
    with False show ?thesis
      by (subst toString.simps) (simp add: decimal_value_snoc digit_val_digit_char)
  qed
qed

lemma toString_inj: "toString a = toString b \<Longrightarrow> a = b"
  by (metis decimal_value_toString)

subsection \<open>The title of a conversation\<close>

lemma update_conv_settled:
  "title (update_conv now (m # rest) c) \<noteq> ''New Conversation''
   \<or> generateConversationTitle (msg_text m) = ''New Conversation''"
  unfolding update_conv_def by (cases "title c = ''New Conversation''") simp_all

lemma update_conv_same_title:
  "title c \<noteq> ''New Conversation'' \<or> generateConversationTitle (msg_text m) = ''New Conversation''
   \<Longrightarrow> title (update_conv now (m # rest) c) = title c"
  unfolding update_conv_def by (cases "title c = ''New Conversation''") auto

lemma update_settles: "title_settled r m (updateCurrentConversation r now (m # rest) st)"
proof (cases "truthy (currentConversationId r)")
  case True
  show ?thesis
    unfolding title_settled_def
  proof (intro ballI impI)
    fix c
    assume c: "c \<in> set (conversations (updateCurrentConversation r now (m # rest) st))"
      and cur': "truthy (currentConversationId r) \<and> Some (conv_id c) = currentConversationId r"
    from cur' have cur: "Some (conv_id c) = currentConversationId r" by simp
    from c True obtain c0 where c0: "c0 \<in> set (conversations st)"
      and cc: "c = (if Some (conv_id c0) = currentConversationId r
                    then update_conv now (m # rest) c0 else c0)"
      by (auto simp: updateCurrentConversation_def)
    have "conv_id (update_conv now (m # rest) c0) = conv_id c0"
      by (simp add: update_conv_def)
    with cc cur have "c = update_conv now (m # rest) c0"
      by (cases "Some (conv_id c0) = currentConversationId r") auto
    then show "title c \<noteq> ''New Conversation''
        \<or> generateConversationTitle (msg_text m) = ''New Conversation''"
      using update_conv_settled by simp
  qed
next
  case False
  then show ?thesis
    by (simp add: title_settled_def)
qed

lemma update_keeps_titles:
  assumes "title_settled r m s"
  shows "map title (conversations (updateCurrentConversation r now (m # rest) s))
         = map title (conversations s)"
proof -
  have "title (if Some (conv_id c) = currentConversationId r
               then update_conv now (m # rest) c else c) = title c"
    if "c \<in> set (conversations s)" and "truthy (currentConversationId r)" for c
    using assms that update_conv_same_title [of c m now rest]
    unfolding title_settled_def by (cases "Some (conv_id c) = currentConversationId r") auto
  then show ?thesis
    by (simp add: updateCurrentConversation_def o_def)
qed

lemma updates_keep_titles:
  assumes "title_settled r m s" and "\<forall>c \<in> set calls. snd c \<noteq> [] \<and> hd (snd c) = m"
  shows "map title (conversations
           (foldl (\<lambda>s (now, newMessages). updateCurrentConversation r now newMessages s) s calls))
         = map title (conversations s)"
  using assms
proof (induction calls arbitrary: s)
  case Nil
  then show ?case by simp
next
  case (Cons c calls)
  obtain now2 ms2 where c: "c = (now2, ms2)" by (cases c)
  from Cons.prems c obtain rest2 where ms2: "ms2 = m # rest2"
    by (cases ms2) auto
  let ?s = "updateCurrentConversation r now2 (m # rest2) s"
  have "title_settled r m ?s" by (rule update_settles)
  moreover have "\<forall>c \<in> set calls. snd c \<noteq> [] \<and> hd (snd c) = m" using Cons.prems(2) by simp
  ultimately have "map title (conversations
           (foldl (\<lambda>s (now, newMessages). updateCurrentConversation r now newMessages s) ?s calls))
         = map title (conversations ?s)" by (rule Cons.IH)
  also have "\<dots> = map title (conversations s)"
    using Cons.prems(1) by (rule update_keeps_titles)
  finally show ?case using c ms2 by simp
qed

text \<open>
  Claim C6. \<open>updateCurrentConversation\<close> is idempotent with respect to the title: after
  a first call with a list that starts with the message \<open>m\<close>, any number of further
  calls from the same render with non-empty lists that start with \<open>m\<close> leave the title
  of every conversation as the first call left it.
\<close>

theorem title_derived_once:
  assumes "\<forall>c \<in> set calls. snd c \<noteq> [] \<and> hd (snd c) = m"
  shows "map title (conversations
           (foldl (\<lambda>s (now, newMessages). updateCurrentConversation r now newMessages s)
              (updateCurrentConversation r now1 (m # rest1) st) calls))
         = map title (conversations (updateCurrentConversation r now1 (m # rest1) st))"
  using update_settles assms by (rule updates_keep_titles)

theorem title_derived_once_witness:
  "hd [\<lparr>msg_text = ''Hello'', sender = User, imageUrl = None\<rparr>,
       \<lparr>msg_text = ''Hi'', sender = Llm, imageUrl = None\<rparr>]
     = \<lparr>msg_text = ''Hello'', sender = User, imageUrl = None\<rparr>
   \<and> hd [\<lparr>msg_text = ''Hello'', sender = User, imageUrl = None\<rparr>,
         \<lparr>msg_text = ''Hi there'', sender = Llm, imageUrl = None\<rparr>]
     = \<lparr>msg_text = ''Hello'', sender = User, imageUrl = None\<rparr>
   \<and> map title (conversations
        (foldl (\<lambda>s (now, newMessages).
             updateCurrentConversation (snd (createNewConversation 1 initial_state)) now newMessages s)
           (updateCurrentConversation (snd (createNewConversation 1 initial_state)) 1
              [\<lparr>msg_text = ''Hello'', sender = User, imageUrl = None\<rparr>]
              (snd (createNewConversation 1 initial_state)))
           [(2, [\<lparr>msg_text = ''Hello'', sender = User, imageUrl = None\<rparr>,
                 \<lparr>msg_text = ''Hi'', sender = Llm, imageUrl = None\<rparr>]),
            (3, [\<lparr>msg_text = ''Hello'', sender = User, imageUrl = None\<rparr>,
                 \<lparr>msg_text = ''Hi there'', sender = Llm, imageUrl = None\<rparr>])]))
      = [''Hello'']"
proof -
  let ?m = "\<lparr>msg_text = ''Hello'', sender = User, imageUrl = None\<rparr>"
  let ?calls = "[(2::nat, [?m, \<lparr>msg_text = ''Hi'', sender = Llm, imageUrl = None\<rparr>]),
                 (3, [?m, \<lparr>msg_text = ''Hi there'', sender = Llm, imageUrl = None\<rparr>])]"
  have h: "\<forall>c \<in> set ?calls. snd c \<noteq> [] \<and> hd (snd c) = ?m" by simp
  have first: "map title (conversations
      (updateCurrentConversation (snd (createNewConversation 1 initial_state)) 1 [?m]
         (snd (createNewConversation 1 initial_state)))) = [''Hello'']"
    by (simp add: createNewConversation_def Let_def updateCurrentConversation_def truthy_def
      toString_nonempty update_conv_def generateConversationTitle_def initial_state_def)
  from title_derived_once [OF h, of "snd (createNewConversation 1 initial_state)" 1 "[]"
      "snd (createNewConversation 1 initial_state)"] first
  show ?thesis by simp
qed

subsection \<open>Creating a conversation\<close>

text \<open>
  Claim C8, as amended. \<open>createNewConversation\<close> allocates as id the decimal digits of
  the clock reading of its call: read as a number the id does not decrease with the
  time of creation, and it differs from the id of every call made at another clock
  reading. The new conversation is put in front of the list, its id becomes the active
  one, the visible message list is emptied and the id is returned.
\<close>

theorem createNewConversation_allocates:
  assumes "createNewConversation now st = (newId, st')"
  shows "newId = toString now \<and> decimal_value newId = now
     \<and> conversations st' =
         \<lparr>conv_id = newId, title = ''New Conversation'', conv_messages = [],
          createdAt = now, updatedAt = now\<rparr> # conversations st
     \<and> currentConversationId st' = Some newId \<and> truthy (currentConversationId st')
     \<and> messages st' = []
     \<and> (\<forall>now2 st2. now2 \<noteq> now \<longrightarrow> fst (createNewConversation now2 st2) \<noteq> newId)
     \<and> (\<forall>now2 st2. now \<le> now2 \<longrightarrow>
            decimal_value newId \<le> decimal_value (fst (createNewConversation now2 st2)))"
proof -
  from assms have id: "newId = toString now"
    and st': "st' = st\<lparr>conversations :=
        \<lparr>conv_id = toString now, title = ''New Conversation'', conv_messages = [],
          createdAt = now, updatedAt = now\<rparr> # conversations st,
        currentConversationId := Some (toString now), messages := []\<rparr>"
    by (auto simp: createNewConversation_def Let_def)
  have other: "fst (createNewConversation now2 st2) = toString now2" for now2 st2
    by (simp add: createNewConversation_def Let_def)
  show ?thesis
    using toString_inj [of _ now]
    by (auto simp: id st' other decimal_value_toString truthy_def toString_nonempty)
qed

theorem createNewConversation_allocates_witness:
  "createNewConversation 1700000000000 initial_state
     = (''1700000000000'', snd (createNewConversation 1700000000000 initial_state))
   \<and> fst (createNewConversation 1700000000001 initial_state) \<noteq> ''1700000000000''
   \<and> currentConversationId (snd (createNewConversation 1700000000000 initial_state))
       = Some ''1700000000000''"
proof -
  have h: "createNewConversation 1700000000000 initial_state
     = (''1700000000000'', snd (createNewConversation 1700000000000 initial_state))"
    by (simp add: createNewConversation_def Let_def toString.simps digit_char_def)
  from createNewConversation_allocates [OF h]
  have a: "\<forall>now2 st2. now2 \<noteq> 1700000000000 \<longrightarrow>
      fst (createNewConversation now2 st2) \<noteq> ''1700000000000''"
    and b: "currentConversationId (snd (createNewConversation 1700000000000 initial_state))
       = Some ''1700000000000''"
    by blast+
  from a [rule_format, of 1700000000001 initial_state]
  have "fst (createNewConversation 1700000000001 initial_state) \<noteq> ''1700000000000''"
    by simp
  with h b show ?thesis by blast
qed

text \<open>
  Claim C8 as stated fails for two calls at the same clock reading: both get the same
  id, and the list holds two conversations under it.
\<close>

theorem same_millisecond_same_id:
  "fst (createNewConversation 1700000000000
          (snd (createNewConversation 1700000000000 initial_state)))
     = fst (createNewConversation 1700000000000 initial_state)
   \<and> \<not> distinct (map conv_id (conversations
          (snd (createNewConversation 1700000000000
             (snd (createNewConversation 1700000000000 initial_state))))))"
  by (simp add: createNewConversation_def Let_def)

text \<open>
  Claim C7, as amended. \<open>createNewConversation\<close> followed by
  \<open>updateCurrentConversation\<close> of the render that shows the new conversation, with the
  one message \<open>m\<close>, leaves in front of the list the conversation of the new id, with
  the messages \<open>[m]\<close> and the title made from the text of \<open>m\<close>: the whole text when
  it has at most 30 characters, which is the empty title for an empty text, and its
  first 30 characters followed by three dots when it is longer.
\<close>

theorem create_then_update:
  assumes "createNewConversation now st = (newId, st1)"
  shows "\<exists>c rest. conversations (updateCurrentConversation st1 now2 [m] st1) = c # rest
      \<and> length rest = length (conversations st)
      \<and> conv_id c = newId \<and> conv_messages c = [m]
      \<and> title c = (if length (msg_text m) > 30 then take 30 (msg_text m) @ ''...''
                   else msg_text m)"
proof -
  from assms have id: "newId = toString now"
    and st1: "st1 = st\<lparr>conversations :=
        \<lparr>conv_id = toString now, title = ''New Conversation'', conv_messages = [],
          createdAt = now, updatedAt = now\<rparr> # conversations st,
        currentConversationId := Some (toString now), messages := []\<rparr>"
    by (auto simp: createNewConversation_def Let_def)
  show ?thesis
    by (simp add: id st1 updateCurrentConversation_def truthy_def toString_nonempty
        update_conv_def generateConversationTitle_def)
qed

theorem create_then_update_witness:
  "(\<exists>c rest. conversations
        (updateCurrentConversation (snd (createNewConversation 1700000000000 initial_state)) 1700000000001
           [\<lparr>msg_text = ''Hello'', sender = User, imageUrl = None\<rparr>]
           (snd (createNewConversation 1700000000000 initial_state))) = c # rest
      \<and> conv_id c = ''1700000000000''
      \<and> conv_messages c = [\<lparr>msg_text = ''Hello'', sender = User, imageUrl = None\<rparr>]
      \<and> title c = ''Hello'')"
proof -
  have h: "createNewConversation 1700000000000 initial_state
     = (''1700000000000'', snd (createNewConversation 1700000000000 initial_state))"
    by (simp add: createNewConversation_def Let_def toString.simps digit_char_def)
  from create_then_update [OF h, of 1700000000001 "\<lparr>msg_text = ''Hello'', sender = User, imageUrl = None\<rparr>"]
  show ?thesis by auto
qed

text \<open>
  Claim C7 as stated fails for a message with an image and no text: the title does not
  stay the placeholder, it becomes the empty string.
\<close>

theorem image_only_title_is_empty:
  "title (hd (conversations
      (updateCurrentConversation (snd (createNewConversation 1700000000000 initial_state))
         1700000000001 [\<lparr>msg_text = [], sender = User, imageUrl = Some ''blob:preview''\<rparr>]
         (snd (createNewConversation 1700000000000 initial_state))))) = []
   \<and> title (hd (conversations
      (updateCurrentConversation (snd (createNewConversation 1700000000000 initial_state))
         1700000000001 [\<lparr>msg_text = [], sender = User, imageUrl = Some ''blob:preview''\<rparr>]
         (snd (createNewConversation 1700000000000 initial_state))))) \<noteq> ''New Conversation''"
  by (simp add: createNewConversation_def Let_def updateCurrentConversation_def truthy_def
      toString_nonempty update_conv_def generateConversationTitle_def)

subsection \<open>Persistence\<close>

lemma commit_conversations:
  "ls_conversations (commit st ls)
     = (if conversations st \<noteq> [] then Some (Serialized (conversations st))
        else ls_conversations ls)"
  by (simp add: commit_def save_current_id_effect_def save_conversations_effect_def)

lemma create_nonempty: "conversations (snd (createNewConversation now st)) \<noteq> []"
  by (simp add: createNewConversation_def Let_def)

text \<open>
  Claim C3, as amended. After a mutation of the conversation list that leaves it
  non-empty, which \<open>createNewConversation\<close> always does, the store holds under
  \<open>conversations\<close> a full overwrite with the serialized current list. This covers the
  update of a conversation, during streaming (\<open>processChunk\<close>) and outside it, and the
  deletion of a conversation when another one remains.
\<close>

theorem store_holds_current_list:
  "ls_conversations (commit (snd (createNewConversation now st)) ls)
     = Some (Serialized (conversations (snd (createNewConversation now st))))
   \<and> (conversations (updateCurrentConversation r now newMessages st) \<noteq> [] \<longrightarrow>
        ls_conversations (commit (updateCurrentConversation r now newMessages st) ls)
          = Some (Serialized (conversations (updateCurrentConversation r now newMessages st))))
   \<and> (conversations (processChunk r now txt st) \<noteq> [] \<longrightarrow>
        ls_conversations (commit (processChunk r now txt st) ls)
          = Some (Serialized (conversations (processChunk r now txt st))))
   \<and> (conversations (deleteConversation r conversationId st) \<noteq> [] \<longrightarrow>
        ls_conversations (commit (deleteConversation r conversationId st) ls)
          = Some (Serialized (conversations (deleteConversation r conversationId st))))"
  by (simp add: commit_conversations create_nonempty)

theorem store_holds_current_list_witness:
  "conversations (updateCurrentConversation two_conversations 3
       [\<lparr>msg_text = ''Hello'', sender = User, imageUrl = None\<rparr>] two_conversations) \<noteq> []
   \<and> ls_conversations (commit (updateCurrentConversation two_conversations 3
       [\<lparr>msg_text = ''Hello'', sender = User, imageUrl = None\<rparr>] two_conversations)
         \<lparr>ls_conversations = None, ls_currentConversationId = None\<rparr>)
      = Some (Serialized
          [\<lparr>conv_id = ''2'', title = ''Hello'',
             conv_messages = [\<lparr>msg_text = ''Hello'', sender = User, imageUrl = None\<rparr>],
             createdAt = 2, updatedAt = 3\<rparr>,
           \<lparr>conv_id = ''1'', title = ''New Conversation'', conv_messages = [],
             createdAt = 1, updatedAt = 1\<rparr>])
   \<and> conversations (deleteConversation two_conversations ''2'' two_conversations) \<noteq> []
   \<and> ls_conversations (commit (deleteConversation two_conversations ''2'' two_conversations)
         \<lparr>ls_conversations = None, ls_currentConversationId = None\<rparr>)
      = Some (Serialized
          [\<lparr>conv_id = ''1'', title = ''New Conversation'', conv_messages = [],
             createdAt = 1, updatedAt = 1\<rparr>])"
proof -
  have u: "conversations (updateCurrentConversation two_conversations 3
       [\<lparr>msg_text = ''Hello'', sender = User, imageUrl = None\<rparr>] two_conversations)
     = [\<lparr>conv_id = ''2'', title = ''Hello'',
             conv_messages = [\<lparr>msg_text = ''Hello'', sender = User, imageUrl = None\<rparr>],
             createdAt = 2, updatedAt = 3\<rparr>,
           \<lparr>conv_id = ''1'', title = ''New Conversation'', conv_messages = [],
             createdAt = 1, updatedAt = 1\<rparr>]"
    by (simp add: two_conversations_def createNewConversation_def Let_def initial_state_def
        updateCurrentConversation_def truthy_def update_conv_def generateConversationTitle_def
        toString.simps digit_char_def)
  have d: "conversations (deleteConversation two_conversations ''2'' two_conversations)
     = [\<lparr>conv_id = ''1'', title = ''New Conversation'', conv_messages = [],
             createdAt = 1, updatedAt = 1\<rparr>]"
    by (simp add: two_conversations_def createNewConversation_def Let_def initial_state_def
        deleteConversation_def toString.simps digit_char_def)
  from store_holds_current_list [where st = two_conversations and r = two_conversations
      and now = 3 and ls = "\<lparr>ls_conversations = None, ls_currentConversationId = None\<rparr>"
      and newMessages = "[\<lparr>msg_text = ''Hello'', sender = User, imageUrl = None\<rparr>]"
      and conversationId = "''2''"]
  show ?thesis unfolding u d by simp
qed

text \<open>
  Claim C3 as stated fails when the last remaining conversation is deleted: the saving
  effect writes only a non-empty list, so the store keeps the deleted conversation and
  the next mount shows it again.
\<close>

theorem deleting_last_conversation_not_saved:
  "conversations (deleteConversation (snd (createNewConversation 1 initial_state)) ''1''
      (snd (createNewConversation 1 initial_state))) = []
   \<and> ls_conversations
        (commit (deleteConversation (snd (createNewConversation 1 initial_state)) ''1''
                  (snd (createNewConversation 1 initial_state)))
           (commit (snd (createNewConversation 1 initial_state))
              \<lparr>ls_conversations = None, ls_currentConversationId = None\<rparr>))
       \<noteq> Some (Serialized (conversations
            (deleteConversation (snd (createNewConversation 1 initial_state)) ''1''
               (snd (createNewConversation 1 initial_state)))))
   \<and> conversations (fst (mount
        (commit (deleteConversation (snd (createNewConversation 1 initial_state)) ''1''
                  (snd (createNewConversation 1 initial_state)))
           (commit (snd (createNewConversation 1 initial_state))
              \<lparr>ls_conversations = None, ls_currentConversationId = None\<rparr>))))
       = [\<lparr>conv_id = ''1'', title = ''New Conversation'', conv_messages = [],
             createdAt = 1, updatedAt = 1\<rparr>]"
  by (simp add: createNewConversation_def Let_def initial_state_def deleteConversation_def
      toString.simps digit_char_def commit_def save_current_id_effect_def
      save_conversations_effect_def mount_def load_effect_def truthy_def stored_truthy_def)

subsection \<open>The active conversation\<close>

text \<open>
  Claim C4. A set active id should name a conversation of the list in every state,
  the state after loading the store included. The loading effect sets the saved id
  whether or not the list holds it: after mounting on a store whose list cannot be read,
  or whose list lacks the saved id, the active id names no conversation.
\<close>

theorem load_keeps_dangling_active_id:
  "currentConversationId (fst (mount
      \<lparr>ls_conversations = Some (Unparseable ''[{''),
       ls_currentConversationId = Some ''1700000000000''\<rparr>)) = Some ''1700000000000''
   \<and> conversations (fst (mount
      \<lparr>ls_conversations = Some (Unparseable ''[{''),
       ls_currentConversationId = Some ''1700000000000''\<rparr>)) = []
   \<and> \<not> active_exists (fst (mount
      \<lparr>ls_conversations = Some (Unparseable ''[{''),
       ls_currentConversationId = Some ''1700000000000''\<rparr>))
   \<and> \<not> active_exists (fst (mount
      \<lparr>ls_conversations = Some (Serialized
          [\<lparr>conv_id = ''1700000000001'', title = ''Hello'', conv_messages = [],
            createdAt = 1700000000001, updatedAt = 1700000000001\<rparr>]),
       ls_currentConversationId = Some ''1700000000000''\<rparr>))"
  by (simp add: mount_def load_effect_def truthy_def stored_truthy_def initial_state_def
      active_exists_def Let_def)

text \<open>
  The operations on conversations, called from the render that shows the state, keep
  the invariant.
\<close>

lemma find_conv_id:
  "find (\<lambda>c. conv_id c = i) cs = Some c \<Longrightarrow> i \<in> conv_id ` set cs"
  by (induction cs) (auto split: if_splits)

lemma update_keeps_ids:
  "map conv_id (conversations (updateCurrentConversation r now newMessages st))
     = map conv_id (conversations st)"
proof -
  have "conv_id (if Some (conv_id c) = currentConversationId r
                 then update_conv now newMessages c else c) = conv_id c" for c
    by (simp add: update_conv_def)
  then show ?thesis
    by (simp add: updateCurrentConversation_def o_def)
qed

lemma update_keeps_active:
  "currentConversationId (updateCurrentConversation r now newMessages st)
     = currentConversationId st"
  by (simp add: updateCurrentConversation_def)

lemma operations_keep_active_exists:
  assumes "active_exists st"
  shows "active_exists (snd (createNewConversation now st))"
    and "active_exists (selectConversation st conversationId st)"
    and "active_exists (updateCurrentConversation r now newMessages st)"
    and "active_exists (deleteConversation st conversationId st)"
proof -
  show "active_exists (snd (createNewConversation now st))"
    by (simp add: active_exists_def createNewConversation_def Let_def)
  show "active_exists (selectConversation st conversationId st)"
    using assms
    by (auto simp: active_exists_def selectConversation_def split: option.splits
        dest: find_conv_id)
  show "active_exists (updateCurrentConversation r now newMessages st)"
    using assms unfolding active_exists_def update_keeps_ids update_keeps_active .
  show "active_exists (deleteConversation st conversationId st)"
    using assms
    by (auto simp: active_exists_def deleteConversation_def Let_def split: option.splits)
qed

text \<open>
  Mounting on a store whose list can be read and holds the saved id, if there is one,
  gives a state with the invariant.
\<close>

lemma load_keeps_active_exists:
  assumes "ls_conversations ls = Some (Serialized cs)"
    and "\<forall>i. ls_currentConversationId ls = Some i \<longrightarrow> i \<in> set (map conv_id cs)"
  shows "active_exists (fst (mount ls))"
proof (cases "ls_currentConversationId ls")
  case None
  then show ?thesis
    using assms(1)
    by (simp add: mount_def load_effect_def Let_def truthy_def stored_truthy_def
        active_exists_def initial_state_def)
next
  case (Some j)
  have found: "find (\<lambda>c. conv_id c = j) cs \<noteq> None" if "j \<in> set (map conv_id cs)"
    using that by (induction cs) auto
  show ?thesis
    using Some assms found
    by (auto simp: mount_def load_effect_def Let_def truthy_def stored_truthy_def
        active_exists_def initial_state_def split: option.splits)
qed

subsection \<open>The request\<close>

text \<open>
  Claim C10. The request maps every message of the history to its role and its text
  only: it has one entry per earlier message, in order, followed by the entry of the
  message being sent; it does not depend on the \<open>imageUrl\<close> of any earlier message;
  and an image part occurs only in the last entry, where it is the image selected for
  this submission.
\<close>

theorem history_sent_as_text:
  "take (length (messages r)) (api_messages (build_request env r))
     = map (\<lambda>msg. \<lparr>role = (if sender msg = User then RoleUser else RoleAssistant),
                    content = Plain (msg_text msg)\<rparr>) (messages r)
   \<and> length (api_messages (build_request env r)) = Suc (length (messages r))
   \<and> build_request env (r\<lparr>messages := map (\<lambda>msg. msg\<lparr>imageUrl := u msg\<rparr>) (messages r)\<rparr>)
       = build_request env r
   \<and> (\<forall>m \<in> set (api_messages (build_request env r)). \<forall>ps p.
         content m = Parts ps \<and> ImageUrlPart p \<in> set ps \<longrightarrow>
           m = last (api_messages (build_request env r)) \<and> selectedImage r = Some p)"
proof -
  have hist: "\<forall>m \<in> set (map (\<lambda>msg. \<lparr>role = (if sender msg = User then RoleUser else RoleAssistant),
                    content = Plain (msg_text msg)\<rparr>) (messages r)). \<forall>ps. content m \<noteq> Parts ps"
    by auto
  show ?thesis
    using hist
    by (auto simp: build_request_def messagesForApi_def Let_def o_def split: option.splits if_splits)
qed

theorem history_sent_as_text_witness:
  "api_messages (build_request
      \<lparr>API_BASE_URL = ''http://localhost:1234/v1'', MODEL_NAME = ''gemma-3-12b'',
       JSON_parse = (\<lambda>s. None), null_read_message = []\<rparr>
      (initial_state\<lparr>messages :=
          [\<lparr>msg_text = ''What is this?'', sender = User, imageUrl = Some ''blob:preview''\<rparr>,
           \<lparr>msg_text = ''A cat.'', sender = Llm, imageUrl = None\<rparr>],
        inputText := '' And this? '', selectedImage := Some ''data:image/png;base64,AAAA''\<rparr>))
   = [\<lparr>role = RoleUser, content = Plain ''What is this?''\<rparr>,
      \<lparr>role = RoleAssistant, content = Plain ''A cat.''\<rparr>,
      \<lparr>role = RoleUser, content = Parts [TextPart ''And this?'',
          ImageUrlPart ''data:image/png;base64,AAAA'']\<rparr>]"
proof -
  let ?env = "\<lparr>API_BASE_URL = ''http://localhost:1234/v1'', MODEL_NAME = ''gemma-3-12b'',
       JSON_parse = (\<lambda>s. None), null_read_message = []\<rparr>"
  let ?r = "initial_state\<lparr>messages :=
          [\<lparr>msg_text = ''What is this?'', sender = User, imageUrl = Some ''blob:preview''\<rparr>,
           \<lparr>msg_text = ''A cat.'', sender = Llm, imageUrl = None\<rparr>],
        inputText := '' And this? '', selectedImage := Some ''data:image/png;base64,AAAA''\<rparr>"
  have last: "drop 2 (api_messages (build_request ?env ?r))
     = [\<lparr>role = RoleUser, content = Parts [TextPart ''And this?'',
          ImageUrlPart ''data:image/png;base64,AAAA'']\<rparr>]"
    by (simp add: build_request_def messagesForApi_def Let_def trim_def is_space_def)
  have len: "length (messages ?r) = 2" by simp
  from history_sent_as_text [of ?r ?env]
  have "take 2 (api_messages (build_request ?env ?r))
     = [\<lparr>role = RoleUser, content = Plain ''What is this?''\<rparr>,
        \<lparr>role = RoleAssistant, content = Plain ''A cat.''\<rparr>]"
    unfolding len by simp
  with last show ?thesis
    by (metis append_take_drop_id append_Cons append_Nil)
qed

subsection \<open>The read loop\<close>

lemma processChunk_messages:
  "messages (processChunk r now txt st) = replace_last txt (messages st)"
proof (cases "messages st = []")
  case True
  then show ?thesis by (simp add: processChunk_def replace_last_def)
next
  case False
  then obtain ms p where mp: "messages st = ms @ [p]"
    by (metis append_butlast_last_id)
  then show ?thesis
    by (simp add: processChunk_def replace_last_def Let_def updateCurrentConversation_def)
qed

lemma replace_last_twice: "replace_last t2 (replace_last t1 ms) = replace_last t2 ms"
  by (simp add: replace_last_def)

lemma replace_last_snoc: "replace_last txt (ms @ [p]) = ms @ [p\<lparr>msg_text := txt\<rparr>]"
  by (simp add: replace_last_def)

lemma process_lines_result:
  "fst (process_lines env r now ls (acc, st)) = acc @ concat (line_deltas env ls)
   \<and> messages (snd (process_lines env r now ls (acc, st)))
       = (if line_deltas env ls = [] then messages st
          else replace_last (acc @ concat (line_deltas env ls)) (messages st))"
proof (induction ls arbitrary: acc st)
  case Nil
  then show ?case by simp
next
  case (Cons l ls)
  show ?case
  proof (cases "take 6 l = ''data: ''")
    case False
    then show ?thesis using Cons.IH [of acc st] by simp
  next
    case data: True
    show ?thesis
    proof (cases "drop 6 l = ''[DONE]''")
      case True
      with data show ?thesis by simp
    next
      case False
      show ?thesis
      proof (cases "read_frame env (drop 6 l)")
        case Malformed
        with data False show ?thesis using Cons.IH [of acc st] by simp
      next
        case NoDelta
        with data False show ?thesis using Cons.IH [of acc st] by simp
      next
        case (Delta d)
        with data False show ?thesis
          using Cons.IH [of "acc @ d" "processChunk r now (acc @ d) st"]
          by (simp add: processChunk_messages replace_last_twice)
      qed
    qed
  qed
qed

lemma stream_deltas_Cons:
  "stream_deltas env ((now, chunk) # cs)
     = line_deltas env (split_lines chunk) @ stream_deltas env cs"
  by (simp add: stream_deltas_def)

lemma read_loop_result:
  "fst (read_loop env r cs (acc, st)) = acc @ concat (stream_deltas env cs)
   \<and> messages (snd (read_loop env r cs (acc, st)))
       = (if stream_deltas env cs = [] then messages st
          else replace_last (acc @ concat (stream_deltas env cs)) (messages st))"
proof (induction cs arbitrary: acc st)
  case Nil
  then show ?case by (simp add: stream_deltas_def)
next
  case (Cons c cs)
  obtain now chunk where c: "c = (now, chunk)" by (cases c)
  let ?d1 = "line_deltas env (split_lines chunk)"
  let ?d2 = "stream_deltas env cs"
  obtain acc1 st1 where s1: "process_lines env r now (split_lines chunk) (acc, st) = (acc1, st1)"
    by (cases "process_lines env r now (split_lines chunk) (acc, st)")
  from process_lines_result [of env r now "split_lines chunk" acc st] s1
  have acc1: "acc1 = acc @ concat ?d1"
    and m1: "messages st1 = (if ?d1 = [] then messages st
          else replace_last (acc @ concat ?d1) (messages st))"
    by simp_all
  from Cons.IH [of acc1 st1]
  have f: "fst (read_loop env r cs (acc1, st1)) = acc1 @ concat ?d2"
    and m: "messages (snd (read_loop env r cs (acc1, st1)))
       = (if ?d2 = [] then messages st1 else replace_last (acc1 @ concat ?d2) (messages st1))"
    by simp_all
  have step: "read_loop env r (c # cs) (acc, st) = read_loop env r cs (acc1, st1)"
    by (simp add: c s1)
  have "fst (read_loop env r (c # cs) (acc, st)) = acc @ concat (?d1 @ ?d2)"
    unfolding step f by (simp add: acc1)
  moreover have "messages (snd (read_loop env r (c # cs) (acc, st)))
       = (if ?d1 @ ?d2 = [] then messages st
          else replace_last (acc @ concat (?d1 @ ?d2)) (messages st))"
  proof (cases "?d2 = []")
    case True
    then show ?thesis unfolding step m m1 by simp
  next
    case False
    then show ?thesis unfolding step m m1 by (simp add: acc1 replace_last_twice)
  qed
  ultimately show ?case by (simp add: c stream_deltas_Cons)
qed

lemma read_frame_Hi: "read_frame example_env (delta_payload ''Hi'') = Delta ''Hi''"
  by (simp add: read_frame_def example_env_def example_parse_def delta_json_def opt_chain_def)

lemma read_frame_there: "read_frame example_env (delta_payload '' there'') = Delta '' there''"
  by (simp add: read_frame_def example_env_def example_parse_def delta_json_def opt_chain_def
      delta_payload_def quoted_def)

lemma hello_deltas: "stream_deltas example_env hello_chunks = [''Hi'', '' there'']"
  by (simp add: stream_deltas_def hello_chunks_def sse_frame_def delta_payload_def quoted_def
     read_frame_def example_env_def example_parse_def delta_json_def opt_chain_def)

text \<open>
  Claim C2. During a streaming exchange every snapshot is the running total of the
  deltas received so far, and it is written by replacing the text of the last message,
  never by appending one. From a state whose last message \<open>p\<close> holds the accumulated
  text, after any lines of a chunk and after any sequence of chunks the accumulated
  text is the old one followed by the deltas read, the last message is \<open>p\<close> with that
  text, and the messages before it are unchanged, so the list has the length it had.
\<close>

theorem snapshots_replace_last_message:
  assumes "messages st = ms @ [p]" and "msg_text p = acc"
  shows "messages (processChunk r now txt st) = ms @ [p\<lparr>msg_text := txt\<rparr>]
    \<and> fst (process_lines env r now ls (acc, st)) = acc @ concat (line_deltas env ls)
    \<and> messages (snd (process_lines env r now ls (acc, st)))
        = ms @ [p\<lparr>msg_text := fst (process_lines env r now ls (acc, st))\<rparr>]
    \<and> fst (read_loop env r cs (acc, st)) = acc @ concat (stream_deltas env cs)
    \<and> messages (snd (read_loop env r cs (acc, st)))
        = ms @ [p\<lparr>msg_text := fst (read_loop env r cs (acc, st))\<rparr>]"
proof -
  have same: "p\<lparr>msg_text := acc\<rparr> = p" using assms(2) by simp
  have "messages (processChunk r now txt st) = ms @ [p\<lparr>msg_text := txt\<rparr>]"
    by (simp add: processChunk_messages assms(1) replace_last_snoc)
  moreover have "messages (snd (process_lines env r now ls (acc, st)))
        = ms @ [p\<lparr>msg_text := fst (process_lines env r now ls (acc, st))\<rparr>]"
  proof (cases "line_deltas env ls = []")
    case True
    then show ?thesis
      using process_lines_result [of env r now ls acc st] by (simp add: assms(1) same)
  next
    case False
    then show ?thesis
      using process_lines_result [of env r now ls acc st]
      by (simp add: assms(1) replace_last_snoc)
  qed
  moreover have "messages (snd (read_loop env r cs (acc, st)))
        = ms @ [p\<lparr>msg_text := fst (read_loop env r cs (acc, st))\<rparr>]"
  proof (cases "stream_deltas env cs = []")
    case True
    then show ?thesis
      using read_loop_result [of env r cs acc st] by (simp add: assms(1) same)
  next
    case False
    then show ?thesis
      using read_loop_result [of env r cs acc st]
      by (simp add: assms(1) replace_last_snoc)
  qed
  ultimately show ?thesis
    using process_lines_result [of env r now ls acc st] read_loop_result [of env r cs acc st]
    by simp
qed

theorem snapshots_replace_last_message_witness:
  "messages placeholder_state
     = [\<lparr>msg_text = ''Hello'', sender = User, imageUrl = None\<rparr>]
       @ [\<lparr>msg_text = [], sender = Llm, imageUrl = None\<rparr>]
   \<and> fst (read_loop example_env placeholder_state hello_chunks ([], placeholder_state))
       = ''Hi there''
   \<and> messages (snd (read_loop example_env placeholder_state hello_chunks
        ([], placeholder_state)))
       = [\<lparr>msg_text = ''Hello'', sender = User, imageUrl = None\<rparr>,
          \<lparr>msg_text = ''Hi there'', sender = Llm, imageUrl = None\<rparr>]"
proof -
  have h1: "messages placeholder_state
     = [\<lparr>msg_text = ''Hello'', sender = User, imageUrl = None\<rparr>]
       @ [\<lparr>msg_text = [], sender = Llm, imageUrl = None\<rparr>]"
    by (simp add: placeholder_state_def)
  have h2: "msg_text \<lparr>msg_text = [], sender = Llm, imageUrl = None\<rparr> = []" by simp
  from snapshots_replace_last_message [OF h1 h2, of placeholder_state 0 "[]" example_env "[]"
      hello_chunks]
  show ?thesis using h1 by (simp add: hello_deltas)
qed

subsection \<open>Chunks and lines\<close>

lemma split_lines_line:
  "CHR 0x0A \<notin> set l \<Longrightarrow> split_lines (l @ CHR 0x0A # rest) = l # split_lines rest"
  by (induction l) auto

lemma split_lines_join:
  "\<forall>l \<in> set ls. CHR 0x0A \<notin> set l \<Longrightarrow> split_lines (join_lines ls) = ls @ [[]]"
  by (induction ls) (simp_all add: join_lines_def split_lines_line)

lemma sentinel_line:
  "(l = ''data: [DONE]'') = (take 6 l = ''data: '' \<and> drop 6 l = ''[DONE]'')"
proof
  assume "l = ''data: [DONE]''"
  then show "take 6 l = ''data: '' \<and> drop 6 l = ''[DONE]''" by simp
next
  assume "take 6 l = ''data: '' \<and> drop 6 l = ''[DONE]''"
  then have "take 6 l @ drop 6 l = ''data: '' @ ''[DONE]''" by simp
  then show "l = ''data: [DONE]''" by simp
qed

lemma line_deltas_Cons:
  "line_deltas env (l # ls)
     = (if l = ''data: [DONE]'' then [] else line_deltas env [l] @ line_deltas env ls)"
proof (cases "l = ''data: [DONE]''")
  case True
  then show ?thesis by simp
next
  case False
  then have "\<not> (take 6 l = ''data: '' \<and> drop 6 l = ''[DONE]'')"
    using sentinel_line [of l] by simp
  then show ?thesis
    by (cases "read_frame env (drop 6 l)") auto
qed

lemma line_deltas_append:
  "line_deltas env (xs @ ys)
     = line_deltas env xs
       @ (if ''data: [DONE]'' \<in> set xs then [] else line_deltas env ys)"
proof (induction xs)
  case Nil
  then show ?case by simp
next
  case (Cons x xs)
  show ?case
  proof (cases "x = ''data: [DONE]''")
    case True
    then show ?thesis by simp
  next
    case False
    have a: "line_deltas env ((x # xs) @ ys) = line_deltas env [x] @ line_deltas env (xs @ ys)"
      using False line_deltas_Cons [of env x "xs @ ys"] by simp
    have b: "line_deltas env (x # xs) = line_deltas env [x] @ line_deltas env xs"
      using False line_deltas_Cons [of env x xs] by simp
    show ?thesis unfolding a b Cons.IH using False by simp
  qed
qed

lemma line_deltas_silent:
  "\<forall>l \<in> set ls. line_deltas env [l] = [] \<Longrightarrow> line_deltas env ls = []"
proof (induction ls)
  case Nil
  then show ?case by simp
next
  case (Cons l ls)
  then show ?case using line_deltas_Cons [of env l ls] by simp
qed

lemma line_deltas_trailing: "line_deltas env (ls @ [[]]) = line_deltas env ls"
  by (simp add: line_deltas_append)

lemma chunk_deltas:
  "\<forall>l \<in> set ls. CHR 0x0A \<notin> set l \<Longrightarrow>
     line_deltas env (split_lines (join_lines ls)) = line_deltas env ls"
  by (simp add: split_lines_join line_deltas_trailing)

lemma grouped_deltas:
  assumes "\<forall>l \<in> set (dropWhile (\<lambda>l. l \<noteq> ''data: [DONE]'') (concat gs)).
             line_deltas env [l] = []"
  shows "concat (map (line_deltas env) gs) = line_deltas env (concat gs)"
  using assms
proof (induction gs)
  case Nil
  then show ?case by simp
next
  case (Cons g gs)
  show ?case
  proof (cases "''data: [DONE]'' \<in> set g")
    case False
    then have "dropWhile (\<lambda>l. l \<noteq> ''data: [DONE]'') (concat (g # gs))
        = dropWhile (\<lambda>l. l \<noteq> ''data: [DONE]'') (concat gs)"
      by (simp add: dropWhile_append)
    with Cons.prems have "concat (map (line_deltas env) gs) = line_deltas env (concat gs)"
      using Cons.IH by simp
    with False show ?thesis by (simp add: line_deltas_append)
  next
    case True
    then have "dropWhile (\<lambda>l. l \<noteq> ''data: [DONE]'') (concat (g # gs))
        = dropWhile (\<lambda>l. l \<noteq> ''data: [DONE]'') g @ concat gs"
      by (auto simp: dropWhile_append)
    with Cons.prems have silent: "\<forall>l \<in> set (concat gs). line_deltas env [l] = []"
      by simp
    have "line_deltas env h = []" if "h \<in> set gs" for h
      using silent that by (intro line_deltas_silent) auto
    then have "concat (map (line_deltas env) gs) = []" by simp
    with True show ?thesis by (simp add: line_deltas_append)
  qed
qed

lemma skip_malformed:
  "take 6 line = ''data: '' \<Longrightarrow> drop 6 line \<noteq> ''[DONE]'' \<Longrightarrow>
   read_frame env (drop 6 line) = Malformed \<Longrightarrow>
   process_lines env r now (line # lines) s = process_lines env r now lines s"
  by (cases s) simp

text \<open>
  Claim C9, as amended. The loop splits every chunk into lines on its own and keeps no
  piece of a line from one read to the next. For every stream of lines and every way of
  cutting it into chunks at line ends, provided no line after the sentinel carries a
  delta, the deltas read, the accumulated text and the visible messages are those of
  the stream arriving in one chunk. A frame whose payload cannot be parsed is skipped and
  the loop goes on with the next line.
\<close>

theorem chunks_at_line_ends:
  assumes "\<forall>g \<in> set groups. \<forall>l \<in> set (snd g). CHR 0x0A \<notin> set l"
    and "\<forall>l \<in> set (dropWhile (\<lambda>l. l \<noteq> ''data: [DONE]'') (concat (map snd groups))).
           line_deltas env [l] = []"
  shows "stream_deltas env (map (\<lambda>g. (fst g, join_lines (snd g))) groups)
           = stream_deltas env [(now, join_lines (concat (map snd groups)))]
     \<and> fst (read_loop env r (map (\<lambda>g. (fst g, join_lines (snd g))) groups) (acc, st))
           = fst (read_loop env r [(now, join_lines (concat (map snd groups)))] (acc, st))
     \<and> messages (snd (read_loop env r (map (\<lambda>g. (fst g, join_lines (snd g))) groups) (acc, st)))
           = messages (snd (read_loop env r [(now, join_lines (concat (map snd groups)))]
               (acc, st)))
     \<and> (\<forall>line lines s. take 6 line = ''data: '' \<and> drop 6 line \<noteq> ''[DONE]''
            \<and> read_frame env (drop 6 line) = Malformed \<longrightarrow>
          process_lines env r now (line # lines) s = process_lines env r now lines s)"
proof -
  let ?split = "map (\<lambda>g. (fst g, join_lines (snd g))) groups"
  let ?whole = "[(now, join_lines (concat (map snd groups)))]"
  have "stream_deltas env ?split = concat (map (line_deltas env) (map snd groups))"
    using assms(1)
    by (auto simp: stream_deltas_def o_def chunk_deltas intro!: arg_cong [where f = concat])
  also have "\<dots> = line_deltas env (concat (map snd groups))"
    using assms(2) by (rule grouped_deltas)
  also have "\<dots> = stream_deltas env ?whole"
    using assms(1) by (simp add: stream_deltas_def chunk_deltas)
  finally have d: "stream_deltas env ?split = stream_deltas env ?whole" .
  show ?thesis
    using read_loop_result [of env r ?split acc st] read_loop_result [of env r ?whole acc st]
      skip_malformed [of _ env r now]
    unfolding d by simp
qed

theorem chunks_at_line_ends_witness:
  "fst (read_loop example_env placeholder_state
      [(1, join_lines [''data: '' @ delta_payload ''Hi'', []]),
       (2, join_lines [''data: '' @ delta_payload '' there'', [], ''data: [DONE]'', []])]
      ([], placeholder_state))
   = fst (read_loop example_env placeholder_state
      [(3, join_lines [''data: '' @ delta_payload ''Hi'', [],
                       ''data: '' @ delta_payload '' there'', [], ''data: [DONE]'', []])]
      ([], placeholder_state))
   \<and> fst (read_loop example_env placeholder_state
      [(3, join_lines [''data: '' @ delta_payload ''Hi'', [],
                       ''data: '' @ delta_payload '' there'', [], ''data: [DONE]'', []])]
      ([], placeholder_state)) = ''Hi there''"
proof -
  let ?groups = "[(1::nat, [''data: '' @ delta_payload ''Hi'', []]),
       (2, [''data: '' @ delta_payload '' there'', [], ''data: [DONE]'', []])]"
  have h1: "\<forall>g \<in> set ?groups. \<forall>l \<in> set (snd g). CHR 0x0A \<notin> set l"
    by (simp add: delta_payload_def quoted_def)
  have h2: "\<forall>l \<in> set (dropWhile (\<lambda>l. l \<noteq> ''data: [DONE]'') (concat (map snd ?groups))).
           line_deltas example_env [l] = []"
    by (simp add: delta_payload_def quoted_def)
  have v: "fst (read_loop example_env placeholder_state
      [(3, join_lines [''data: '' @ delta_payload ''Hi'', [],
                       ''data: '' @ delta_payload '' there'', [], ''data: [DONE]'', []])]
      ([], placeholder_state)) = ''Hi there''"
    by (simp add: join_lines_def delta_payload_def quoted_def
     read_frame_def example_env_def example_parse_def delta_json_def opt_chain_def)
  from chunks_at_line_ends [OF h1 h2, of 3 placeholder_state "[]" placeholder_state]
  have "fst (read_loop example_env placeholder_state
      [(1, join_lines [''data: '' @ delta_payload ''Hi'', []]),
       (2, join_lines [''data: '' @ delta_payload '' there'', [], ''data: [DONE]'', []])]
      ([], placeholder_state))
   = fst (read_loop example_env placeholder_state
      [(3, join_lines [''data: '' @ delta_payload ''Hi'', [],
                       ''data: '' @ delta_payload '' there'', [], ''data: [DONE]'', []])]
      ([], placeholder_state))"
    by simp
  with v show ?thesis by simp
qed

text \<open>
  Claim C9 as stated fails for a frame cut in two by the chunks: its first part is a
  payload that does not parse, its second part is not a \<open>data: \<close> line, and the
  delta is lost, while the same frame in one chunk is read.
\<close>

theorem split_frame_is_lost:
  "fst (read_loop example_env placeholder_state
      [(1, sse_frame (delta_payload ''Hi''))] ([], placeholder_state)) = ''Hi''
   \<and> fst (read_loop example_env placeholder_state
      [(1, take 20 (sse_frame (delta_payload ''Hi''))),
       (2, drop 20 (sse_frame (delta_payload ''Hi'')))] ([], placeholder_state)) = []
   \<and> messages (snd (read_loop example_env placeholder_state
      [(1, take 20 (sse_frame (delta_payload ''Hi''))),
       (2, drop 20 (sse_frame (delta_payload ''Hi'')))] ([], placeholder_state)))
     = messages placeholder_state
   \<and> take 20 (sse_frame (delta_payload ''Hi'')) @ drop 20 (sse_frame (delta_payload ''Hi''))
     = sse_frame (delta_payload ''Hi'')"
  by (simp add: sse_frame_def delta_payload_def quoted_def
     read_frame_def example_env_def example_parse_def delta_json_def opt_chain_def
     placeholder_state_def initial_state_def processChunk_def updateCurrentConversation_def
     truthy_def)

subsection \<open>The error path\<close>


lemma submit_phase_conversations:
  "conversations (submit_phase now r st)
     = (if truthy (currentConversationId r)
        then conversations (updateCurrentConversation r now
               (messages r @ [\<lparr>msg_text = inputText r, sender = User,
                  imageUrl = (if truthy (imagePreviewUrl r) then imagePreviewUrl r else None)\<rparr>])
               st)
        else \<lparr>conv_id = toString now, title = ''New Conversation'', conv_messages = [],
               createdAt = now, updatedAt = now\<rparr> # conversations st)"
  by (simp add: submit_phase_def Let_def createNewConversation_def updateCurrentConversation_def)


lemma catch_error_rest:
  "conversations (catch_error env msg st) = conversations st"
  "\<not> isStreaming (catch_error env msg st)"
  by (simp_all add: catch_error_def Let_def)




subsection \<open>The first submission of a session\<close>

text \<open>
  \<open>handleSubmit\<close> and the functions it calls belong to the render in which no
  conversation was active. Their \<open>updateCurrentConversation\<close> tests the id of that
  render, so neither the call deferred with \<open>setTimeout\<close> nor the calls made while the
  answer streams change the conversation that was just created.
\<close>

lemma stale_update:
  "\<not> truthy (currentConversationId r) \<Longrightarrow> updateCurrentConversation r now ms st = st"
  by (simp add: updateCurrentConversation_def)

lemma stale_processChunk:
  "\<not> truthy (currentConversationId r) \<Longrightarrow>
     conversations (processChunk r now txt st) = conversations st"
  by (simp add: processChunk_def Let_def stale_update)

lemma stale_process_lines:
  "\<not> truthy (currentConversationId r) \<Longrightarrow>
     conversations (snd (process_lines env r now ls (acc, st))) = conversations st"
proof (induction ls arbitrary: acc st)
  case Nil
  then show ?case by simp
next
  case (Cons l ls)
  then show ?case
    by (cases "read_frame env (drop 6 l)") (simp_all add: stale_processChunk Let_def)
qed

lemma stale_read_loop:
  "\<not> truthy (currentConversationId r) \<Longrightarrow>
     conversations (snd (read_loop env r cs (acc, st))) = conversations st"
proof (induction cs arbitrary: acc st)
  case Nil
  then show ?case by simp
next
  case (Cons c cs)
  obtain now chunk where c: "c = (now, chunk)" by (cases c)
  obtain acc1 st1 where s1: "process_lines env r now (split_lines chunk) (acc, st) = (acc1, st1)"
    by (cases "process_lines env r now (split_lines chunk) (acc, st)")
  from stale_process_lines [OF Cons.prems, of env now "split_lines chunk" acc st] s1
  have "conversations st1 = conversations st" by simp
  with Cons.IH [OF Cons.prems, of acc1 st1] show ?case by (simp add: c s1)
qed

lemma first_submission_never_updates:
  assumes "\<not> truthy (currentConversationId r)"
    and "trim (inputText r) \<noteq> [] \<or> truthy (selectedImage r)"
  shows "conversations (handleSubmit env fetch now r st)
     = \<lparr>conv_id = toString now, title = ''New Conversation'', conv_messages = [],
         createdAt = now, updatedAt = now\<rparr> # conversations st"
proof -
  let ?sub = "submit_phase now r st"
  have sub: "conversations ?sub
     = \<lparr>conv_id = toString now, title = ''New Conversation'', conv_messages = [],
         createdAt = now, updatedAt = now\<rparr> # conversations st"
    using assms(1) by (simp add: submit_phase_conversations)
  have "conversations (response_phase env r res ?sub) = conversations ?sub" for res
  proof (cases res)
    case (Rejected msg)
    then show ?thesis by (simp add: response_phase_def catch_error_rest)
  next
    case (Resolved resp)
    show ?thesis
    proof (cases "body resp")
      case None
      with Resolved show ?thesis by (simp add: response_phase_def catch_error_rest)
    next
      case (Some reader)
      obtain acc1 st1 where rl: "read_loop env r (chunks reader) ([], ?sub) = (acc1, st1)"
        by (cases "read_loop env r (chunks reader) ([], ?sub)")
      from stale_read_loop [OF assms(1), of env "chunks reader" "[]" ?sub] rl
      have "conversations st1 = conversations ?sub" by simp
      with Resolved Some rl show ?thesis
        by (simp add: response_phase_def catch_error_rest split: option.splits)
    qed
  qed
  with assms(2) sub show ?thesis by (auto simp: handleSubmit_def)
qed

text \<open>
  Claim C1. In a fresh session \<open>Hello\<close> is sent and the answer arrives as the deltas
  \<open>Hi\<close> and \<open> there\<close>, then the sentinel. One conversation is created, the
  assistant message ends as \<open>Hi there\<close> and the exchange is no longer streaming; but
  the conversation keeps the title \<open>New Conversation\<close> and no message, and the
  visible list holds the assistant message only: \<open>createNewConversation\<close> empties the
  list to which the user message had just been added.
\<close>

theorem first_submission_conversation_stays_empty:
  "conversations (handleSubmit example_env hello_fetch 1700000000000 hello_state hello_state)
     = [\<lparr>conv_id = ''1700000000000'', title = ''New Conversation'', conv_messages = [],
         createdAt = 1700000000000, updatedAt = 1700000000000\<rparr>]
   \<and> messages (handleSubmit example_env hello_fetch 1700000000000 hello_state hello_state)
     = [\<lparr>msg_text = ''Hi there'', sender = Llm, imageUrl = None\<rparr>]
   \<and> currentConversationId
        (handleSubmit example_env hello_fetch 1700000000000 hello_state hello_state)
     = Some ''1700000000000''
   \<and> \<not> isStreaming (handleSubmit example_env hello_fetch 1700000000000 hello_state hello_state)"
proof -
  have guard: "trim (inputText hello_state) \<noteq> []"
    by (simp add: hello_state_def trim_def is_space_def)
  have cid: "\<not> truthy (currentConversationId hello_state)"
    by (simp add: hello_state_def initial_state_def truthy_def)
  have n: "toString 1700000000000 = ''1700000000000''"
    by (simp add: toString.simps digit_char_def)
  let ?sub = "submit_phase 1700000000000 hello_state hello_state"
  have sub: "?sub = \<lparr>messages = [\<lparr>msg_text = [], sender = Llm, imageUrl = None\<rparr>],
      inputText = [], selectedImage = None, imagePreviewUrl = None, isStreaming = True,
      conversations = [\<lparr>conv_id = ''1700000000000'', title = ''New Conversation'',
         conv_messages = [], createdAt = 1700000000000, updatedAt = 1700000000000\<rparr>],
      currentConversationId = Some ''1700000000000'', isSidebarOpen = False\<rparr>"
    by (simp add: submit_phase_def Let_def cid stale_update createNewConversation_def n)
      (simp add: hello_state_def initial_state_def)
  have run: "handleSubmit example_env hello_fetch 1700000000000 hello_state hello_state
     = (snd (read_loop example_env hello_state hello_chunks ([], ?sub)))\<lparr>isStreaming := False\<rparr>"
    using guard
    by (simp add: handleSubmit_def response_phase_def hello_fetch_def split: prod.splits)
  have conv: "conversations (snd (read_loop example_env hello_state hello_chunks ([], ?sub)))
     = conversations ?sub"
    using cid by (rule stale_read_loop)
  have cur: "currentConversationId (snd (read_loop example_env hello_state hello_chunks ([], ?sub)))
     = Some ''1700000000000''"
    unfolding sub
    by (simp add: hello_chunks_def sse_frame_def delta_payload_def quoted_def
     read_frame_def example_env_def example_parse_def delta_json_def opt_chain_def
     processChunk_def updateCurrentConversation_def cid)
  have msgs: "messages (snd (read_loop example_env hello_state hello_chunks ([], ?sub)))
     = [\<lparr>msg_text = ''Hi there'', sender = Llm, imageUrl = None\<rparr>]"
    using read_loop_result [of example_env hello_state hello_chunks "[]" ?sub]
    by (simp add: hello_deltas sub replace_last_def)
  show ?thesis
    unfolding run by (simp add: conv cur msgs) (simp add: sub)
qed

end
